theory Spec2Isabelle
  imports Main "HOL-Library.AList"
begin

section \<open>Remote connections\<close>

text \<open>
  The SSH and SFTP clients are library objects. A client is modelled by an identifier
  (so that Close calls can be counted per connection) together with the answers the
  remote side gives. The remote filesystem is a finite tree: every node carries the
  attributes a stat or a listing reports for it and the outcome of opening it
  (a file) or of listing it (a directory). \<open>None\<close> stands for a failed remote call.
\<close>

record Attrs =
  a_size :: int
  a_mode :: nat
  a_modTime :: int

text \<open>An opened remote file: the bytes a reader obtains, and whether the read then
  ends with an error instead of a clean end of file.\<close>

record RFile =
  f_data :: string
  f_readErr :: bool

datatype rnode =
    RegNode string Attrs "RFile option"
  | DirNode string Attrs "rnode list option"

fun node_Name :: "rnode \<Rightarrow> string" where
  "node_Name (RegNode n a c) = n"
| "node_Name (DirNode n a c) = n"

fun node_Attrs :: "rnode \<Rightarrow> Attrs" where
  "node_Attrs (RegNode n a c) = a"
| "node_Attrs (DirNode n a c) = a"

fun node_IsDir :: "rnode \<Rightarrow> bool" where
  "node_IsDir (RegNode n a c) = False"
| "node_IsDir (DirNode n a c) = True"

record SSHClient =
  ssh_id :: nat
  ssh_closeErr :: bool

record SFTPClient =
  sftp_id :: nat
  sftp_closeErr :: bool
  sftp_Getwd :: "string option"
  sftp_fs :: "string \<Rightarrow> rnode option"

datatype conn = SFTPConn nat | SSHConn nat

section \<open>Errors\<close>

datatype error =
    ErrInvalidHost | ErrInvalidPort | ErrInvalidUsername | ErrInvalidPassword
  | ErrSessionExpired | ErrSessionNotFound
  | ErrMaxSessions
  | ErrSSHConnect | ErrSFTPClient | ErrGenerateID
  | ErrCloseSFTP | ErrCloseSSH
  | ErrSessionLookup error
  | ErrStat | ErrIsDirectory | ErrTooLarge
  | ErrOpen string | ErrRead | ErrReadDir string
  | ErrZipEntry string | ErrZipDir string | ErrCopy string
  | ErrSinkWrite | ErrZipClosedTwice
  | PanicNilClient

section \<open>models: Session and LoginRequest\<close>

text \<open>Times are nanosecond counts; a \<open>time.Duration\<close> is a signed 64-bit count and
  \<open>Time.Sub\<close> saturates at its bounds.\<close>

definition maxDuration :: int where
  "maxDuration = 2 ^ 63 - 1"

definition minDuration :: int where
  "minDuration = - (2 ^ 63)"

definition time_Sub :: "int \<Rightarrow> int \<Rightarrow> int" where
  "time_Sub t u =
     (let d = t - u in
      if d > maxDuration then maxDuration
      else if d < minDuration then minDuration
      else d)"

definition time_Since :: "int \<Rightarrow> int \<Rightarrow> int" where
  "time_Since now t = time_Sub now t"

record Session =
  ID :: string
  SSHClient :: "SSHClient option"
  SFTPClient :: "SFTPClient option"
  CreatedAt :: int
  LastAccess :: int
  HomeDir :: string
  Username :: string
  Host :: string
  Port :: int
  IsActive :: bool

record LoginRequest =
  req_Host :: string
  req_Port :: int
  req_Username :: string
  req_Password :: string

text \<open>\<open>Session.IsExpired\<close>; \<open>now\<close> is the clock reading of \<open>time.Since\<close>.\<close>

definition IsExpired :: "Session \<Rightarrow> int \<Rightarrow> int \<Rightarrow> bool" where
  "IsExpired s timeout now = (time_Since now (LastAccess s) > timeout)"

definition UpdateAccess :: "Session \<Rightarrow> int \<Rightarrow> Session" where
  "UpdateAccess s now = s\<lparr>LastAccess := now\<rparr>"

text \<open>\<open>Session.Close\<close> returns the error, the session as mutated, and the Close calls
  it issued on connections, in order.\<close>

definition Session_Close :: "Session \<Rightarrow> error option \<times> Session \<times> conn list" where
  "Session_Close s =
     (let s1 = s\<lparr>IsActive := False\<rparr>;
          (err1, s2, ev1) =
             (case SFTPClient s1 of
                None \<Rightarrow> (None, s1, [])
              | Some c \<Rightarrow>
                  (if sftp_closeErr c then Some ErrCloseSFTP else None,
                   s1\<lparr>SFTPClient := None\<rparr>, [SFTPConn (sftp_id c)]));
          (err2, s3, ev2) =
             (case SSHClient s2 of
                None \<Rightarrow> (err1, s2, [])
              | Some c \<Rightarrow>
                  (if ssh_closeErr c then Some ErrCloseSSH else err1,
                   s2\<lparr>SSHClient := None\<rparr>, [SSHConn (ssh_id c)]))
      in (err2, s3, ev1 @ ev2))"

definition Validate :: "LoginRequest \<Rightarrow> error option" where
  "Validate r =
     (if req_Host r = [] then Some ErrInvalidHost
      else if req_Port r \<le> 0 \<or> req_Port r > 65535 then Some ErrInvalidPort
      else if req_Username r = [] then Some ErrInvalidUsername
      else if req_Password r = [] then Some ErrInvalidPassword
      else None)"

section \<open>services: SessionService\<close>

record Config =
  Timeout :: int
  MaxSessions :: int
  CleanupInterval :: int

text \<open>The \<open>sessions\<close> map is an association list with one pair per key, so that its
  length is \<open>len(s.sessions)\<close>.\<close>

record SessionService =
  sessions :: "(string \<times> Session) list"
  config :: Config

definition NewSessionService :: "Config \<Rightarrow> SessionService" where
  "NewSessionService cfg = \<lparr>sessions = [], config = cfg\<rparr>"

text \<open>\<open>GetSession\<close>: \<open>now\<close> is the clock reading inside \<open>IsExpired\<close>, \<open>now'\<close> the one
  inside \<open>UpdateAccess\<close>. The session is mutated through the pointer held by the map,
  so the map entry changes with it.\<close>

definition GetSession ::
  "SessionService \<Rightarrow> string \<Rightarrow> int \<Rightarrow> int \<Rightarrow> (error + Session) \<times> SessionService" where
  "GetSession svc sessionID now now' =
     (case map_of (sessions svc) sessionID of
        None \<Rightarrow> (Inl ErrSessionNotFound, svc)
      | Some session \<Rightarrow>
          if IsExpired session (Timeout (config svc)) now
          then (Inl ErrSessionExpired, svc)
          else (let session' = UpdateAccess session now'
                in (Inr session',
                    svc\<lparr>sessions := AList.update sessionID session' (sessions svc)\<rparr>)))"

text \<open>\<open>DeleteSession\<close> returns the error, the service afterwards and the Close calls
  made. A close error is only printed.\<close>

definition DeleteSession ::
  "SessionService \<Rightarrow> string \<Rightarrow> error option \<times> SessionService \<times> conn list" where
  "DeleteSession svc sessionID =
     (case map_of (sessions svc) sessionID of
        None \<Rightarrow> (Some ErrSessionNotFound, svc, [])
      | Some session \<Rightarrow>
          (let (err, session', closes) = Session_Close session
           in (None, svc\<lparr>sessions := AList.delete sessionID (sessions svc)\<rparr>, closes)))"

text \<open>
  What the outside world answers during one \<open>CreateSession\<close> call: the results of
  \<open>ssh.Dial\<close>, \<open>sftp.NewClient\<close> and \<open>generateSessionID\<close>, and the two clock readings
  taken for \<open>CreatedAt\<close> and \<open>LastAccess\<close>.
\<close>

record Dial =
  d_ssh :: "SSHClient option"
  d_sftp :: "SFTPClient option"
  d_rand :: "string option"
  d_now :: int
  d_now' :: int

text \<open>\<open>CreateSession\<close> has three regions: the validation and the capacity check made
  under the read lock, the connection set-up made with no lock held, and the insertion
  made under the write lock.\<close>

definition create_check :: "SessionService \<Rightarrow> LoginRequest \<Rightarrow> error option" where
  "create_check svc req =
     (case Validate req of
        Some e \<Rightarrow> Some e
      | None \<Rightarrow>
          if int (length (sessions svc)) \<ge> MaxSessions (config svc)
          then Some ErrMaxSessions
          else None)"

definition create_connect :: "LoginRequest \<Rightarrow> Dial \<Rightarrow> (error + Session) \<times> conn list" where
  "create_connect req d =
     (case d_ssh d of
        None \<Rightarrow> (Inl ErrSSHConnect, [])
      | Some sshClient \<Rightarrow>
          (case d_sftp d of
             None \<Rightarrow> (Inl ErrSFTPClient, [SSHConn (ssh_id sshClient)])
           | Some sftpClient \<Rightarrow>
               (let homeDir = (case sftp_Getwd sftpClient of
                                 None \<Rightarrow> ''/''
                               | Some wd \<Rightarrow> wd)
                in case d_rand d of
                     None \<Rightarrow>
                       (Inl ErrGenerateID,
                        [SFTPConn (sftp_id sftpClient), SSHConn (ssh_id sshClient)])
                   | Some sessionID \<Rightarrow>
                       (Inr \<lparr>ID = sessionID,
                             SSHClient = Some sshClient,
                             SFTPClient = Some sftpClient,
                             CreatedAt = d_now d,
                             LastAccess = d_now' d,
                             HomeDir = homeDir,
                             Username = req_Username req,
                             Host = req_Host req,
                             Port = req_Port req,
                             IsActive = True\<rparr>, []))))"

definition create_store :: "SessionService \<Rightarrow> Session \<Rightarrow> SessionService" where
  "create_store svc session =
     svc\<lparr>sessions := AList.update (ID session) session (sessions svc)\<rparr>"

definition CreateSession ::
  "SessionService \<Rightarrow> LoginRequest \<Rightarrow> Dial
     \<Rightarrow> (error + Session) \<times> SessionService \<times> conn list" where
  "CreateSession svc req d =
     (case create_check svc req of
        Some e \<Rightarrow> (Inl e, svc, [])
      | None \<Rightarrow>
          (case create_connect req d of
             (Inl e, closes) \<Rightarrow> (Inl e, svc, closes)
           | (Inr session, closes) \<Rightarrow> (Inr session, create_store svc session, closes)))"

text \<open>Concurrent callers: each caller is at one of the three regions, a lock makes a
  region atomic, and a schedule names the caller that runs its next region.\<close>

datatype caller =
    AtCheck LoginRequest Dial
  | AtConnect LoginRequest Dial
  | AtStore Session
  | Finished "error + Session"

fun caller_step :: "SessionService \<Rightarrow> caller \<Rightarrow> SessionService \<times> caller" where
  "caller_step svc (AtCheck req d) =
     (case create_check svc req of
        Some e \<Rightarrow> (svc, Finished (Inl e))
      | None \<Rightarrow> (svc, AtConnect req d))"
| "caller_step svc (AtConnect req d) =
     (case fst (create_connect req d) of
        Inl e \<Rightarrow> (svc, Finished (Inl e))
      | Inr session \<Rightarrow> (svc, AtStore session))"
| "caller_step svc (AtStore session) = (create_store svc session, Finished (Inr session))"
| "caller_step svc (Finished r) = (svc, Finished r)"

fun run_schedule ::
  "SessionService \<Rightarrow> caller list \<Rightarrow> nat list \<Rightarrow> SessionService \<times> caller list" where
  "run_schedule svc cs [] = (svc, cs)"
| "run_schedule svc cs (i # sched) =
     (if i < length cs
      then (case caller_step svc (cs ! i) of
              (svc', c') \<Rightarrow> run_schedule svc' (cs[i := c']) sched)
      else run_schedule svc cs sched)"

text \<open>The home-directory detection of the single-file server's \<open>connectHandler\<close>.\<close>

definition connectHandler_homeDir :: "SFTPClient \<Rightarrow> string \<Rightarrow> string" where
  "connectHandler_homeDir sftpClient username =
     (let probe =
            (if sftp_fs sftpClient (''/home/'' @ username) \<noteq> None
             then ''/home/'' @ username
             else if sftp_fs sftpClient (''/Users/'' @ username) \<noteq> None
             then ''/Users/'' @ username
             else ''/'')
      in case sftp_Getwd sftpClient of
           None \<Rightarrow> probe
         | Some wd \<Rightarrow> if wd \<noteq> [] then wd else probe)"

text \<open>The connections a session holds, in the order \<open>Close\<close> visits them.\<close>

definition session_conns :: "Session \<Rightarrow> conn list" where
  "session_conns s =
     (case SFTPClient s of None \<Rightarrow> [] | Some c \<Rightarrow> [SFTPConn (sftp_id c)]) @
     (case SSHClient s of None \<Rightarrow> [] | Some c \<Rightarrow> [SSHConn (ssh_id c)])"

section \<open>Library functions on strings and paths\<close>

text \<open>
  \<open>strings.ToLower\<close> is given on ASCII letters; other bytes are left as they are.
  \<open>path.Clean\<close>, \<open>path.Join\<close>, \<open>path.Base\<close> and \<open>filepath.Ext\<close> follow the Go library
  for the slash separator (on which \<open>filepath\<close> and \<open>path\<close> agree).
\<close>

definition lower_char :: "char \<Rightarrow> char" where
  "lower_char c =
     (let n = (of_char c :: nat)
      in if 65 \<le> n \<and> n \<le> 90 then char_of (n + 32) else c)"

definition strings_ToLower :: "string \<Rightarrow> string" where
  "strings_ToLower s = map lower_char s"

fun strings_HasPrefix :: "string \<Rightarrow> string \<Rightarrow> bool" where
  "strings_HasPrefix s [] = True"
| "strings_HasPrefix [] (p # ps) = False"
| "strings_HasPrefix (c # cs) (p # ps) = (c = p \<and> strings_HasPrefix cs ps)"

fun strings_Contains :: "string \<Rightarrow> string \<Rightarrow> bool" where
  "strings_Contains [] sub = (sub = [])"
| "strings_Contains (c # cs) sub =
     (strings_HasPrefix (c # cs) sub \<or> strings_Contains cs sub)"

fun string_less :: "string \<Rightarrow> string \<Rightarrow> bool" where
  "string_less [] [] = False"
| "string_less [] (y # ys) = True"
| "string_less (x # xs) [] = False"
| "string_less (x # xs) (y # ys) =
     (if x = y then string_less xs ys else (of_char x :: nat) < of_char y)"

fun split_slash :: "string \<Rightarrow> string list" where
  "split_slash [] = [Nil]"
| "split_slash (c # cs) =
     (if c = CHR ''/'' then [] # split_slash cs
      else (case split_slash cs of
              [] \<Rightarrow> [c # Nil]
            | w # ws \<Rightarrow> (c # w) # ws))"

fun join_slash :: "string list \<Rightarrow> string" where
  "join_slash [] = []"
| "join_slash [e] = e"
| "join_slash (e # e' # es) = e @ CHR ''/'' # join_slash (e' # es)"

text \<open>The elements kept by \<open>Clean\<close>; \<open>out\<close> is the output so far, last element first.
  A \<open>..\<close> removes the last element when there is one that is not itself a \<open>..\<close>;
  otherwise it is kept on an unrooted path and dropped on a rooted one.\<close>

fun clean_elems :: "bool \<Rightarrow> string list \<Rightarrow> string list \<Rightarrow> string list" where
  "clean_elems rooted out [] = rev out"
| "clean_elems rooted out (e # es) =
     (if e = [] \<or> e = ''.'' then clean_elems rooted out es
      else if e = ''..'' then
        (case out of
           [] \<Rightarrow> if rooted then clean_elems rooted out es
                 else clean_elems rooted [e] es
         | prev # rest \<Rightarrow>
             if prev = ''..'' then
               (if rooted then clean_elems rooted out es
                else clean_elems rooted (e # out) es)
             else clean_elems rooted rest es)
      else clean_elems rooted (e # out) es)"

definition path_Clean :: "string \<Rightarrow> string" where
  "path_Clean p =
     (if p = [] then ''.''
      else
        (let rooted = (hd p = CHR ''/'');
             body = join_slash (clean_elems rooted [] (split_slash p))
         in if rooted then CHR ''/'' # body
            else if body = [] then ''.''
            else body))"

definition path_Join :: "string \<Rightarrow> string \<Rightarrow> string" where
  "path_Join a b =
     (if a = [] \<and> b = [] then []
      else path_Clean (if a = [] then b else a @ CHR ''/'' # b))"

definition path_Base :: "string \<Rightarrow> string" where
  "path_Base p =
     (if p = [] then ''.''
      else
        (let p1 = rev (dropWhile (\<lambda>c. c = CHR ''/'') (rev p));
             p2 = rev (takeWhile (\<lambda>c. c \<noteq> CHR ''/'') (rev p1))
         in if p2 = [] then ''/'' else p2))"

definition filepath_Ext :: "string \<Rightarrow> string" where
  "filepath_Ext p =
     (let t = takeWhile (\<lambda>c. c \<noteq> CHR ''/'') (rev p)
      in if CHR ''.'' \<in> set t
         then CHR ''.'' # rev (takeWhile (\<lambda>c. c \<noteq> CHR ''.'') t)
         else [])"

section \<open>utils\<close>



definition IsImageFile :: "string \<Rightarrow> bool" where
  "IsImageFile ext =
     (strings_ToLower ext \<in> set
        [''.jpg'', ''.jpeg'', ''.png'', ''.gif'', ''.bmp'', ''.svg'', ''.webp'', ''.ico'',
         ''.tiff'', ''.tif''])"

definition IsDocumentFile :: "string \<Rightarrow> bool" where
  "IsDocumentFile ext =
     (strings_ToLower ext \<in> set
        [''.pdf'', ''.doc'', ''.docx'', ''.xls'', ''.xlsx'', ''.ppt'', ''.pptx'', ''.txt'',
         ''.rtf'', ''.odt'', ''.ods'', ''.odp''])"

definition IsArchiveFile :: "string \<Rightarrow> bool" where
  "IsArchiveFile ext =
     (strings_ToLower ext \<in> set
        [''.zip'', ''.tar'', ''.gz'', ''.bz2'', ''.xz'', ''.7z'', ''.rar'', ''.tar.gz'',
         ''.tar.bz2'', ''.tar.xz''])"

definition IsCodeFile :: "string \<Rightarrow> bool" where
  "IsCodeFile ext =
     (strings_ToLower ext \<in> set
        [''.js'', ''.jsx'', ''.ts'', ''.tsx'', ''.py'', ''.go'', ''.java'', ''.c'', ''.cpp'',
         ''.cc'', ''.cxx'', ''.h'', ''.hpp'', ''.cs'', ''.php'', ''.rb'', ''.rs'', ''.swift'',
         ''.kt'', ''.scala'', ''.sh'', ''.bash'', ''.zsh'', ''.fish'', ''.ps1'', ''.sql'',
         ''.html'', ''.htm'', ''.xml'', ''.css'', ''.scss'', ''.sass'', ''.less'', ''.json'',
         ''.yaml'', ''.yml'', ''.toml'', ''.ini'', ''.conf'', ''.cfg'', ''.md'',
         ''.markdown'', ''.tex'', ''.r'', ''.R'', ''.m'', ''.pl'', ''.lua'', ''.vim'',
         ''.dockerfile'', ''.docker'', ''.makefile'', ''.mk'', ''.cmake'', ''.gradle'',
         ''.groovy'', ''.clj'', ''.elm'', ''.ex'', ''.exs'', ''.erl'', ''.hrl'', ''.fs'',
         ''.fsx'', ''.ml'', ''.mli'', ''.hs'', ''.lhs'', ''.dart'', ''.v'', ''.sv'', ''.vhd'',
         ''.vhdl''])"

section \<open>services: FileService\<close>

text \<open>Calls made on the remote connection and on the ZIP writer, in program order.\<close>

datatype event =
    EvStat string | EvReadDir string | EvOpen string | EvRead string | EvClose string
  | EvCreate string | EvCopy string | EvZipClose

record FileInfo =
  Name :: string
  Size :: int
  Mode :: nat
  ModTime :: int
  IsDir :: bool
  Path :: string

fun node_Open :: "rnode \<Rightarrow> RFile option" where
  "node_Open (RegNode n a f) = f"
| "node_Open (DirNode n a l) = None"

fun node_ReadDir :: "rnode \<Rightarrow> rnode list option" where
  "node_ReadDir (RegNode n a f) = None"
| "node_ReadDir (DirNode n a l) = l"

definition sftp_ReadDir :: "SFTPClient \<Rightarrow> string \<Rightarrow> rnode list option" where
  "sftp_ReadDir c p = (case sftp_fs c p of None \<Rightarrow> None | Some node \<Rightarrow> node_ReadDir node)"

definition matchesFilter :: "string \<Rightarrow> string \<Rightarrow> bool" where
  "matchesFilter filename flt =
     (let filename = strings_ToLower filename;
          flt = strings_ToLower flt
      in if flt = ''images'' then IsImageFile (filepath_Ext filename)
         else if flt = ''documents'' then IsDocumentFile (filepath_Ext filename)
         else if flt = ''archives'' then IsArchiveFile (filepath_Ext filename)
         else if flt = ''code'' then IsCodeFile (filepath_Ext filename)
         else strings_Contains filename flt)"

text \<open>The order of \<open>sort.Slice\<close>: directories first, then by lower-cased name. The sort
  is written as an insertion sort; the library leaves the order of ties open.\<close>

definition files_less :: "FileInfo \<Rightarrow> FileInfo \<Rightarrow> bool" where
  "files_less a b =
     (if IsDir a \<noteq> IsDir b then IsDir a
      else string_less (strings_ToLower (Name a)) (strings_ToLower (Name b)))"

fun insert_file :: "FileInfo \<Rightarrow> FileInfo list \<Rightarrow> FileInfo list" where
  "insert_file x [] = [x]"
| "insert_file x (y # ys) =
     (if files_less x y then x # y # ys else y # insert_file x ys)"

definition sort_files :: "FileInfo list \<Rightarrow> FileInfo list" where
  "sort_files xs = foldr insert_file xs []"

fun list_entries :: "string \<Rightarrow> bool \<Rightarrow> string \<Rightarrow> rnode list \<Rightarrow> FileInfo list" where
  "list_entries dirPath showHidden flt [] = []"
| "list_entries dirPath showHidden flt (info # infos) =
     (if \<not> showHidden \<and> strings_HasPrefix (node_Name info) ''.''
      then list_entries dirPath showHidden flt infos
      else if flt \<noteq> [] \<and> \<not> matchesFilter (node_Name info) flt
      then list_entries dirPath showHidden flt infos
      else \<lparr>Name = node_Name info,
            Size = a_size (node_Attrs info),
            Mode = a_mode (node_Attrs info),
            ModTime = a_modTime (node_Attrs info),
            IsDir = node_IsDir info,
            Path = path_Join dirPath (node_Name info)\<rparr>
           # list_entries dirPath showHidden flt infos)"

text \<open>\<open>ListFiles\<close> returns the result, the session service afterwards and the remote
  calls made.\<close>

definition ListFiles ::
  "SessionService \<Rightarrow> int \<Rightarrow> int \<Rightarrow> string \<Rightarrow> string \<Rightarrow> bool \<Rightarrow> string
     \<Rightarrow> (error + FileInfo list) \<times> SessionService \<times> event list" where
  "ListFiles svc now now' sessionID dirPath showHidden flt =
     (case GetSession svc sessionID now now' of
        (Inl err, svc') \<Rightarrow> (Inl err, svc', [])
      | (Inr session, svc') \<Rightarrow>
          (let dirPath = (if dirPath = [] then HomeDir session else dirPath);
               dirPath = path_Clean dirPath
           in case SFTPClient session of
                None \<Rightarrow> (Inl PanicNilClient, svc', [])
              | Some c \<Rightarrow>
                  (case sftp_ReadDir c dirPath of
                     None \<Rightarrow> (Inl (ErrReadDir dirPath), svc', [EvReadDir dirPath])
                   | Some fileInfos \<Rightarrow>
                       (Inr (sort_files (list_entries dirPath showHidden flt fileInfos)),
                        svc', [EvReadDir dirPath]))))"


subsection \<open>The ZIP writer\<close>

text \<open>
  The \<open>archive/zip\<close> writer over the response writer. The sink either never fails
  (\<open>None\<close>) or accepts a number of writer operations and fails from then on; the
  buffered writer between them keeps the first error, so every later operation fails
  too. An entry is a name with the bytes copied into it; \<open>z_trailers\<close> counts the
  central directories written by \<open>Close\<close>.
\<close>

record ZipRun =
  z_entries :: "(string \<times> string) list"
  z_sink :: "nat option"
  z_closed :: bool
  z_trailers :: nat
  z_trace :: "event list"

definition zip_NewWriter :: "nat option \<Rightarrow> ZipRun" where
  "zip_NewWriter w =
     \<lparr>z_entries = [], z_sink = w, z_closed = False, z_trailers = 0, z_trace = []\<rparr>"

definition emit :: "event \<Rightarrow> ZipRun \<Rightarrow> ZipRun" where
  "emit e z = z\<lparr>z_trace := z_trace z @ [e]\<rparr>"

definition sink_ok :: "ZipRun \<Rightarrow> bool" where
  "sink_ok z = (z_sink z \<noteq> Some 0)"

definition sink_write :: "ZipRun \<Rightarrow> ZipRun" where
  "sink_write z = z\<lparr>z_sink := map_option (\<lambda>n. n - 1) (z_sink z)\<rparr>"

definition zip_Create :: "ZipRun \<Rightarrow> string \<Rightarrow> error option \<times> ZipRun" where
  "zip_Create z name =
     (let z1 = emit (EvCreate name) z
      in if sink_ok z1
         then (None, sink_write (z1\<lparr>z_entries := z_entries z1 @ [(name, [])]\<rparr>))
         else (Some ErrSinkWrite, z1))"

fun append_last :: "string \<Rightarrow> (string \<times> string) list \<Rightarrow> (string \<times> string) list" where
  "append_last d [] = []"
| "append_last d [(n, c)] = [(n, c @ d)]"
| "append_last d (e # e' # es) = e # append_last d (e' # es)"

text \<open>\<open>io.Copy\<close> from an opened remote file into the entry created last. Nothing is
  written for an empty file.\<close>

definition io_Copy :: "ZipRun \<Rightarrow> string \<Rightarrow> RFile \<Rightarrow> error option \<times> ZipRun" where
  "io_Copy z name file =
     (let z1 = emit (EvCopy name) z
      in if f_data file = []
         then (if f_readErr file then Some ErrRead else None, z1)
         else if sink_ok z1
         then (if f_readErr file then Some ErrRead else None,
               sink_write (z1\<lparr>z_entries := append_last (f_data file) (z_entries z1)\<rparr>))
         else (Some ErrSinkWrite, z1))"

definition zip_Close :: "ZipRun \<Rightarrow> error option \<times> ZipRun" where
  "zip_Close z =
     (let z1 = emit EvZipClose z
      in if z_closed z1 then (Some ErrZipClosedTwice, z1)
         else
           (let z2 = z1\<lparr>z_closed := True\<rparr>
            in if sink_ok z2
               then (None, sink_write (z2\<lparr>z_trailers := z_trailers z2 + 1\<rparr>))
               else (Some ErrSinkWrite, z2)))"

subsection \<open>The archive builder\<close>

definition addFileToZip :: "ZipRun \<Rightarrow> rnode \<Rightarrow> string \<Rightarrow> string \<Rightarrow> error option \<times> ZipRun" where
  "addFileToZip z node filePath zipPath =
     (let z1 = emit (EvOpen filePath) z
      in case node_Open node of
           None \<Rightarrow> (Some (ErrOpen filePath), z1)
         | Some file \<Rightarrow>
             (case zip_Create z1 zipPath of
                (Some e, z2) \<Rightarrow> (Some (ErrZipEntry zipPath), emit (EvClose filePath) z2)
              | (None, z2) \<Rightarrow>
                  (case io_Copy z2 zipPath file of
                     (Some e, z3) \<Rightarrow> (Some (ErrCopy filePath), emit (EvClose filePath) z3)
                   | (None, z3) \<Rightarrow> (None, emit (EvClose filePath) z3))))"

text \<open>\<open>addDirectoryToZip\<close> with its loop over the listing; the node is the directory
  at \<open>dirPath\<close>, whose listing \<open>ReadDir\<close> returns.\<close>

fun addDirectoryToZip :: "ZipRun \<Rightarrow> rnode \<Rightarrow> string \<Rightarrow> string \<Rightarrow> error option \<times> ZipRun"
  and addDirectoryFiles :: "ZipRun \<Rightarrow> rnode list \<Rightarrow> string \<Rightarrow> string \<Rightarrow> ZipRun" where
  "addDirectoryToZip z (RegNode n a f) dirPath zipPath =
     (Some (ErrReadDir dirPath), emit (EvReadDir dirPath) z)"
| "addDirectoryToZip z (DirNode n a None) dirPath zipPath =
     (Some (ErrReadDir dirPath), emit (EvReadDir dirPath) z)"
| "addDirectoryToZip z (DirNode n a (Some files)) dirPath zipPath =
     (let z1 = emit (EvReadDir dirPath) z
      in case (if zipPath \<noteq> [] then zip_Create z1 (zipPath @ ''/'') else (None, z1)) of
           (Some e, z2) \<Rightarrow> (Some (ErrZipDir zipPath), z2)
         | (None, z2) \<Rightarrow> (None, addDirectoryFiles z2 files dirPath zipPath))"
| "addDirectoryFiles z [] dirPath zipPath = z"
| "addDirectoryFiles z (file # files) dirPath zipPath =
     (let remotePath = path_Join dirPath (node_Name file);
          localZipPath = zipPath @ ''/'' @ node_Name file
      in if node_IsDir file
         then addDirectoryFiles (snd (addDirectoryToZip z file remotePath localZipPath))
                files dirPath zipPath
         else addDirectoryFiles (snd (addFileToZip z file remotePath localZipPath))
                files dirPath zipPath)"

text \<open>The loop of \<open>DownloadMultiple\<close> over the requested paths. The flag reports a
  nil-pointer panic, raised by the first \<open>Stat\<close> on a session without a client.\<close>

fun downloadLoop :: "SFTPClient option \<Rightarrow> ZipRun \<Rightarrow> string list \<Rightarrow> bool \<times> ZipRun" where
  "downloadLoop client z [] = (False, z)"
| "downloadLoop None z (filePath # rest) = (True, z)"
| "downloadLoop (Some c) z (filePath # rest) =
     (let cleanPath = path_Clean filePath;
          z1 = emit (EvStat cleanPath) z
      in case sftp_fs c cleanPath of
           None \<Rightarrow> downloadLoop (Some c) z1 rest
         | Some fileInfo \<Rightarrow>
             if node_IsDir fileInfo
             then downloadLoop (Some c)
                    (snd (addDirectoryToZip z1 fileInfo cleanPath (path_Base cleanPath))) rest
             else downloadLoop (Some c)
                    (snd (addFileToZip z1 fileInfo cleanPath (path_Base cleanPath))) rest)"

text \<open>\<open>DownloadMultiple\<close>; \<open>w\<close> is the sink. The deferred \<open>Close\<close> runs on every way
  out once the writer exists, and its error is dropped.\<close>

definition DownloadMultiple ::
  "SessionService \<Rightarrow> int \<Rightarrow> int \<Rightarrow> string \<Rightarrow> string list \<Rightarrow> nat option
     \<Rightarrow> error option \<times> SessionService \<times> ZipRun option" where
  "DownloadMultiple svc now now' sessionID filePaths w =
     (case GetSession svc sessionID now now' of
        (Inl err, svc') \<Rightarrow> (Some (ErrSessionLookup err), svc', None)
      | (Inr session, svc') \<Rightarrow>
          (let zipWriter = zip_NewWriter w
           in case downloadLoop (SFTPClient session) zipWriter filePaths of
                (panicked, z) \<Rightarrow>
                  (if panicked then Some PanicNilClient else None,
                   svc', Some (snd (zip_Close z)))))"

section \<open>Auxiliary notions for the archive builder\<close>

text \<open>Events a directory or file walk can emit: everything but \<open>Stat\<close> and the closing
  of the writer.\<close>

fun walk_event :: "event \<Rightarrow> bool" where
  "walk_event (EvStat p) = False"
| "walk_event EvZipClose = False"
| "walk_event e = True"

definition extends :: "ZipRun \<Rightarrow> ZipRun \<Rightarrow> bool" where
  "extends z z' = (z_closed z' = z_closed z \<and> z_trailers z' = z_trailers z \<and>
                   (\<exists>ev. z_trace z' = z_trace z @ ev \<and> list_all walk_event ev))"

fun is_stat :: "event \<Rightarrow> bool" where
  "is_stat (EvStat p) = True"
| "is_stat e = False"

text \<open>The entries the archive is to hold for a node under the ZIP name \<open>zp\<close>, written
  from the description of the builder: a file that opens gives one entry with its
  bytes, a directory that lists gives its own entry followed by the entries of its
  children, and a node whose open or listing fails gives nothing.\<close>

fun node_entries :: "rnode \<Rightarrow> string \<Rightarrow> (string \<times> string) list"
  and children_entries :: "rnode list \<Rightarrow> string \<Rightarrow> (string \<times> string) list" where
  "node_entries (RegNode n a None) zp = []"
| "node_entries (RegNode n a (Some f)) zp = [(zp, f_data f)]"
| "node_entries (DirNode n a None) zp = []"
| "node_entries (DirNode n a (Some files)) zp =
     (if zp \<noteq> [] then [(zp @ ''/'', [])] else []) @ children_entries files zp"
| "children_entries [] zp = []"
| "children_entries (f # fs) zp =
     node_entries f (zp @ ''/'' @ node_Name f) @ children_entries fs zp"

definition archive_entries :: "SFTPClient \<Rightarrow> string list \<Rightarrow> (string \<times> string) list" where
  "archive_entries c paths =
     concat (map (\<lambda>p. case sftp_fs c (path_Clean p) of
                         None \<Rightarrow> []
                       | Some node \<Rightarrow> node_entries node (path_Base (path_Clean p))) paths)"


text \<open>A requested path fails when its stat fails, or it is a file that does not open,
  or a directory that does not list.\<close>

definition path_fails :: "SFTPClient \<Rightarrow> string \<Rightarrow> bool" where
  "path_fails c p =
     (case sftp_fs c (path_Clean p) of
        None \<Rightarrow> True
      | Some node \<Rightarrow>
          if node_IsDir node then node_ReadDir node = None else node_Open node = None)"

section \<open>A concrete server\<close>

text \<open>One remote home directory and one registry with a single session, used to run
  the functions on concrete inputs.\<close>

definition ex_attrs :: "int \<Rightarrow> Attrs" where
  "ex_attrs n = \<lparr>a_size = n, a_mode = 420, a_modTime = 0\<rparr>"

definition ex_file :: "string \<Rightarrow> string \<Rightarrow> rnode" where
  "ex_file n d = RegNode n (ex_attrs (int (length d))) (Some \<lparr>f_data = d, f_readErr = False\<rparr>)"

definition ex_dirB :: rnode where
  "ex_dirB = DirNode ''dirB'' (ex_attrs 4096)
               (Some [ex_file ''c.txt'' ''ccc'', RegNode ''d.txt'' (ex_attrs 3) None])"

definition ex_dirC :: rnode where
  "ex_dirC = DirNode ''dirC'' (ex_attrs 4096)
               (Some [ex_file ''x.txt'' ''xx'', ex_file ''y.txt'' ''yy''])"

definition ex_fs :: "string \<Rightarrow> rnode option" where
  "ex_fs p =
     (if p = ''/home/alice/fileA.txt'' then Some (ex_file ''fileA.txt'' ''aaaa'')
      else if p = ''/home/alice/dirB'' then Some ex_dirB
      else if p = ''/home/alice/dirB/d.txt'' then Some (RegNode ''d.txt'' (ex_attrs 3) None)
      else if p = ''/home/alice/dirC'' then Some ex_dirC
      else if p = ''/home/alice'' then
        Some (DirNode ''alice'' (ex_attrs 4096)
                (Some [ex_file ''fileA.txt'' ''aaaa'', ex_dirB, ex_file ''.profile'' ''p'']))
      else if p = ''/'' then
        Some (DirNode ''/'' (ex_attrs 4096) (Some [ex_file ''motd'' ''hi'']))
      else if p = ''/home/alice/notes.py'' then Some (ex_file ''notes.py'' ''print(1)'')
      else if p = ''/home/alice/data.unknown'' then Some (ex_file ''data.unknown'' ''0123'')
      else if p = ''/home/alice/big.bin'' then
        Some (RegNode ''big.bin'' (ex_attrs 200)
                (Some \<lparr>f_data = replicate 200 (CHR ''x''), f_readErr = False\<rparr>))
      else None)"

definition ex_sftp :: SFTPClient where
  "ex_sftp = \<lparr>sftp_id = 1, sftp_closeErr = False, sftp_Getwd = Some ''/home/alice'',
               sftp_fs = ex_fs\<rparr>"

definition ex_ssh :: SSHClient where
  "ex_ssh = \<lparr>ssh_id = 1, ssh_closeErr = False\<rparr>"

definition ex_session :: Session where
  "ex_session =
     \<lparr>ID = ''s1'', SSHClient = Some ex_ssh, SFTPClient = Some ex_sftp, CreatedAt = 100,
      LastAccess = 100, HomeDir = ''/home/alice'', Username = ''alice'', Host = ''files'',
      Port = 22, IsActive = True\<rparr>"

definition ex_config :: Config where
  "ex_config = \<lparr>Timeout = 30, MaxSessions = 1, CleanupInterval = 5\<rparr>"

definition ex_svc :: SessionService where
  "ex_svc = \<lparr>sessions = [(''s1'', ex_session)], config = ex_config\<rparr>"

definition ex_reqA :: LoginRequest where
  "ex_reqA = \<lparr>req_Host = ''files'', req_Port = 22, req_Username = ''alice'', req_Password = ''pw''\<rparr>"

definition ex_reqB :: LoginRequest where
  "ex_reqB = \<lparr>req_Host = ''files'', req_Port = 22, req_Username = ''bob'', req_Password = ''pw''\<rparr>"

definition ex_dialA :: Dial where
  "ex_dialA = \<lparr>d_ssh = Some ex_ssh, d_sftp = Some ex_sftp, d_rand = Some ''aa'', d_now = 100, d_now' = 100\<rparr>"

definition ex_dialB :: Dial where
  "ex_dialB = \<lparr>d_ssh = Some (ex_ssh\<lparr>ssh_id := 2\<rparr>), d_sftp = Some (ex_sftp\<lparr>sftp_id := 2\<rparr>),
                d_rand = Some ''bb'', d_now = 101, d_now' = 101\<rparr>"

definition ex_sftp_nowd :: SFTPClient where
  "ex_sftp_nowd = ex_sftp\<lparr>sftp_Getwd := None\<rparr>"

definition ex_dial_nowd :: Dial where
  "ex_dial_nowd = ex_dialA\<lparr>d_sftp := Some ex_sftp_nowd\<rparr>"


section \<open>Lemmas\<close>

lemmas ex_defs = ex_attrs_def ex_file_def ex_dirB_def ex_dirC_def ex_fs_def ex_sftp_def ex_ssh_def
  ex_session_def ex_config_def ex_svc_def ex_reqA_def ex_reqB_def ex_dialA_def ex_dialB_def
  ex_sftp_nowd_def ex_dial_nowd_def

lemmas time_defs = time_Since_def time_Sub_def maxDuration_def minDuration_def

lemma ex_get: "GetSession ex_svc ''s1'' 110 111 =
   (Inr (ex_session\<lparr>LastAccess := 111\<rparr>), ex_svc\<lparr>sessions := [(''s1'', ex_session\<lparr>LastAccess := 111\<rparr>)]\<rparr>)"
  by (simp add: GetSession_def IsExpired_def UpdateAccess_def time_defs ex_svc_def ex_session_def ex_config_def Let_def)

subsection \<open>Session registry\<close>

lemma CreateSession_at_capacity:
  "int (length (sessions svc)) \<ge> MaxSessions (config svc) \<Longrightarrow>
   fst (CreateSession svc req d) \<in> {Inl ErrMaxSessions, Inl ErrInvalidHost, Inl ErrInvalidPort, Inl ErrInvalidUsername, Inl ErrInvalidPassword} \<and> fst (snd (CreateSession svc req d)) = svc"
  by (auto simp: CreateSession_def create_check_def Validate_def split: option.splits)

lemma length_alist_update:
  "length (AList.update k v al) = (if k \<in> fst ` set al then length al else Suc (length al))"
  by (induction al) auto

lemma CreateSession_sequential_bound:
  assumes "int (length (sessions svc)) \<le> MaxSessions (config svc)"
  shows "int (length (sessions (fst (snd (CreateSession svc req d))))) \<le> MaxSessions (config (fst (snd (CreateSession svc req d))))"
  using assms
  by (auto simp: CreateSession_def create_check_def create_store_def length_alist_update split: option.splits sum.splits prod.splits)

lemma run_schedule_alone:
  "run_schedule svc [AtCheck req d] [0, 0, 0] =
     (fst (snd (CreateSession svc req d)), [Finished (fst (CreateSession svc req d))])"
  by (auto simp: CreateSession_def split: option.splits sum.splits prod.splits)

lemma Session_Close_conns: "snd (snd (Session_Close s)) = session_conns s"
  by (simp add: Session_Close_def session_conns_def Let_def split: option.splits)

subsection \<open>Traces of the archive builder\<close>

lemma extends_refl: "extends z z"
  by (simp add: extends_def)

lemma extends_trans: "extends a b \<Longrightarrow> extends b c \<Longrightarrow> extends a c"
  by (auto simp: extends_def)

lemma extends_emit: "walk_event e \<Longrightarrow> extends z (emit e z)"
  by (simp add: extends_def emit_def)

lemma extends_Create: "extends z (snd (zip_Create z n))"
  by (simp add: extends_def zip_Create_def emit_def sink_write_def Let_def)

lemma extends_Copy: "extends z (snd (io_Copy z n f))"
  by (simp add: extends_def io_Copy_def emit_def sink_write_def Let_def)

lemma extends_addFile: "extends z (snd (addFileToZip z node p zp))"
proof -
  have a: "extends z (emit (EvOpen p) z)" by (simp add: extends_emit)
  show ?thesis
  proof (cases "node_Open node")
    case None
    then show ?thesis using a by (simp add: addFileToZip_def Let_def)
  next
    case (Some f)
    let ?z1 = "emit (EvOpen p) z"
    let ?z2 = "snd (zip_Create ?z1 zp)"
    let ?z3 = "snd (io_Copy ?z2 zp f)"
    have b: "extends z ?z2" using a extends_Create extends_trans by blast
    have c: "extends z ?z3" using b extends_Copy extends_trans by blast
    have d: "extends z (emit (EvClose p) ?z2)" using b extends_emit[of "EvClose p"] extends_trans by (metis walk_event.simps(6))
    have e: "extends z (emit (EvClose p) ?z3)" using c extends_emit[of "EvClose p"] extends_trans by (metis walk_event.simps(6))
    show ?thesis using Some d e
      by (auto simp: addFileToZip_def Let_def split: prod.splits option.splits)
  qed
qed

lemma extends_addDir:
  "extends z (snd (addDirectoryToZip z node d zp))"
  "extends z (addDirectoryFiles z files d zp)"
proof (induction z node d zp and z files d zp rule: addDirectoryToZip_addDirectoryFiles.induct)
  case (1 z n a f dirPath zipPath)
  then show ?case by (simp add: extends_emit)
next
  case (2 z n a dirPath zipPath)
  then show ?case by (simp add: extends_emit)
next
  case (3 z n a files dirPath zipPath)
  let ?z1 = "emit (EvReadDir dirPath) z"
  have a: "extends z ?z1" by (simp add: extends_emit)
  show ?case
  proof (cases "zipPath = []")
    case True
    then show ?thesis using a 3 extends_trans by (auto simp: Let_def)
  next
    case False
    obtain e z2 where cr: "zip_Create ?z1 (zipPath @ ''/'') = (e, z2)" by (cases "zip_Create ?z1 (zipPath @ ''/'')")
    have b: "extends z z2" using a extends_Create[of ?z1 "zipPath @ ''/''"] cr extends_trans by fastforce
    show ?thesis
    proof (cases e)
      case None
      have "extends z2 (addDirectoryFiles z2 files dirPath zipPath)"
        using 3 False cr None by (simp add: Let_def)
      then show ?thesis using False cr b None extends_trans by (auto simp: Let_def)
    next
      case (Some err)
      then show ?thesis using False cr b by (auto simp: Let_def)
    qed
  qed
next
  case (4 z dirPath zipPath)
  then show ?case by (simp add: extends_refl)
next
  case (5 z f0 files dirPath zipPath)
  let ?rp = "path_Join dirPath (node_Name f0)"
  let ?zp = "zipPath @ ''/'' @ node_Name f0"
  show ?case
  proof (cases "node_IsDir f0")
    case True
    let ?z' = "snd (addDirectoryToZip z f0 ?rp ?zp)"
    have a: "extends z ?z'" using 5(1)[OF refl refl True] .
    have b: "extends ?z' (addDirectoryFiles ?z' files dirPath zipPath)"
      using 5(2)[OF refl refl True] .
    show ?thesis using True extends_trans[OF a b] by (simp add: Let_def)
  next
    case False
    let ?z' = "snd (addFileToZip z f0 ?rp ?zp)"
    have a: "extends z ?z'" by (rule extends_addFile)
    have b: "extends ?z' (addDirectoryFiles ?z' files dirPath zipPath)"
      using 5(3)[OF refl refl False] .
    show ?thesis using False extends_trans[OF a b] by (simp add: Let_def)
  qed
qed

lemma walk_not_stat: "walk_event e \<Longrightarrow> \<not> is_stat e"
  by (cases e) auto

lemma extends_stats: "extends z z' \<Longrightarrow> filter is_stat (z_trace z') = filter is_stat (z_trace z)"
  by (auto simp: extends_def list_all_iff walk_not_stat)

lemma extends_noclose:
  "extends z z' \<Longrightarrow> (EvZipClose \<in> set (z_trace z')) = (EvZipClose \<in> set (z_trace z))"
proof -
  assume "extends z z'"
  then obtain ev where ev: "z_trace z' = z_trace z @ ev" "list_all walk_event ev"
    by (auto simp: extends_def)
  have "EvZipClose \<notin> set ev"
  proof
    assume "EvZipClose \<in> set ev"
    then have "walk_event EvZipClose" using ev(2) unfolding list_all_iff by blast
    then show False by simp
  qed
  then show ?thesis using ev(1) by auto
qed

lemma extends_closed: "extends z z' \<Longrightarrow> z_closed z' = z_closed z \<and> z_trailers z' = z_trailers z"
  by (simp add: extends_def)

lemma downloadLoop_trace:
  "fst (downloadLoop (Some c) z paths) = False \<and>
   z_closed (snd (downloadLoop (Some c) z paths)) = z_closed z \<and>
   z_trailers (snd (downloadLoop (Some c) z paths)) = z_trailers z \<and>
   filter is_stat (z_trace (snd (downloadLoop (Some c) z paths))) =
     filter is_stat (z_trace z) @ map (EvStat \<circ> path_Clean) paths \<and>
   (EvZipClose \<in> set (z_trace (snd (downloadLoop (Some c) z paths)))) =
     (EvZipClose \<in> set (z_trace z))"
proof (induction paths arbitrary: z)
  case Nil
  then show ?case by simp
next
  case (Cons p ps)
  let ?cp = "path_Clean p"
  let ?z1 = "emit (EvStat ?cp) z"
  have z1: "z_closed ?z1 = z_closed z" "z_trailers ?z1 = z_trailers z"
    "filter is_stat (z_trace ?z1) = filter is_stat (z_trace z) @ [EvStat ?cp]"
    "(EvZipClose \<in> set (z_trace ?z1)) = (EvZipClose \<in> set (z_trace z))"
    by (simp_all add: emit_def)
  show ?case
  proof (cases "sftp_fs c ?cp")
    case None
    then show ?thesis using Cons.IH[of ?z1] z1 by (simp add: Let_def)
  next
    case (Some node)
    let ?z2 = "if node_IsDir node then snd (addDirectoryToZip ?z1 node ?cp (path_Base ?cp))
               else snd (addFileToZip ?z1 node ?cp (path_Base ?cp))"
    have e: "extends ?z1 ?z2" by (simp add: extends_addDir(1) extends_addFile)
    have eq: "downloadLoop (Some c) z (p # ps) = downloadLoop (Some c) ?z2 ps"
      using Some by (simp add: Let_def)
    show ?thesis
      unfolding eq using Cons.IH[of ?z2] extends_stats[OF e] extends_noclose[OF e] extends_closed[OF e] z1
      by simp
  qed
qed

subsection \<open>The archive over a sink that never fails\<close>

lemma append_last_snoc: "append_last d (es @ [(n, c)]) = es @ [(n, c @ d)]"
proof (induction es)
  case Nil
  then show ?case by simp
next
  case (Cons e es)
  then show ?case by (cases es) auto
qed

lemma healthy_Create:
  "z_sink z = None \<Longrightarrow> fst (zip_Create z n) = None \<and> z_sink (snd (zip_Create z n)) = None \<and>
     z_entries (snd (zip_Create z n)) = z_entries z @ [(n, [])]"
  by (simp add: zip_Create_def emit_def sink_ok_def sink_write_def Let_def)

lemma healthy_addFile:
  assumes "z_sink z = None"
  shows "z_sink (snd (addFileToZip z node p zp)) = None \<and>
         z_entries (snd (addFileToZip z node p zp)) =
           z_entries z @ (case node_Open node of None \<Rightarrow> [] | Some f \<Rightarrow> [(zp, f_data f)])"
  using assms
  by (auto simp: addFileToZip_def zip_Create_def io_Copy_def emit_def sink_ok_def sink_write_def
      Let_def append_last_snoc split: option.splits)

lemma healthy_addDir:
  "z_sink z = None \<Longrightarrow> z_sink (snd (addDirectoryToZip z node d zp)) = None \<and>
     z_entries (snd (addDirectoryToZip z node d zp)) = z_entries z @ (if node_IsDir node then node_entries node zp else [])"
  "z_sink z = None \<Longrightarrow> z_sink (addDirectoryFiles z files d zp) = None \<and>
     z_entries (addDirectoryFiles z files d zp) = z_entries z @ children_entries files zp"
proof (induction z node d zp and z files d zp rule: addDirectoryToZip_addDirectoryFiles.induct)
  case (1 z n a f dirPath zipPath)
  then show ?case by (simp add: emit_def)
next
  case (2 z n a dirPath zipPath)
  then show ?case by (simp add: emit_def)
next
  case (3 z n a files dirPath zipPath)
  let ?z1 = "emit (EvReadDir dirPath) z"
  have s1: "z_sink ?z1 = None" "z_entries ?z1 = z_entries z" using 3(2) by (simp_all add: emit_def)
  show ?case
  proof (cases "zipPath = []")
    case True
    then show ?thesis using 3 s1 by (simp add: Let_def)
  next
    case False
    obtain e z2 where cr: "zip_Create ?z1 (zipPath @ ''/'') = (e, z2)"
      by (cases "zip_Create ?z1 (zipPath @ ''/'')")
    have h: "e = None" "z_sink z2 = None" "z_entries z2 = z_entries z @ [(zipPath @ ''/'', [])]"
      using healthy_Create[OF s1(1), of "zipPath @ ''/''"] s1(2) cr by simp_all
    have "z_sink (addDirectoryFiles z2 files dirPath zipPath) = None \<and>
          z_entries (addDirectoryFiles z2 files dirPath zipPath) = z_entries z2 @ children_entries files zipPath"
      using 3(1)[of ?z1 e z2] cr h False by simp
    then show ?thesis using False cr h by (simp add: Let_def)
  qed
next
  case (4 z dirPath zipPath)
  then show ?case by simp
next
  case (5 z f0 files dirPath zipPath)
  let ?rp = "path_Join dirPath (node_Name f0)"
  let ?zp = "zipPath @ ''/'' @ node_Name f0"
  show ?case
  proof (cases "node_IsDir f0")
    case True
    let ?z' = "snd (addDirectoryToZip z f0 ?rp ?zp)"
    have a: "z_sink ?z' = None" "z_entries ?z' = z_entries z @ node_entries f0 ?zp"
      using 5(1)[OF refl refl True 5(4)] True by simp_all
    have b: "z_sink (addDirectoryFiles ?z' files dirPath zipPath) = None \<and>
      z_entries (addDirectoryFiles ?z' files dirPath zipPath) = z_entries ?z' @ children_entries files zipPath"
      using 5(2)[OF refl refl True a(1)] .
    show ?thesis using True a b by (simp add: Let_def)
  next
    case False
    let ?z' = "snd (addFileToZip z f0 ?rp ?zp)"
    have ne: "(case node_Open f0 of None \<Rightarrow> [] | Some f \<Rightarrow> [(?zp, f_data f)]) = node_entries f0 ?zp"
      using False by (cases f0; simp split: option.splits)
    have a: "z_sink ?z' = None" "z_entries ?z' = z_entries z @ node_entries f0 ?zp"
      using healthy_addFile[OF 5(4), of f0 ?rp ?zp] ne by simp_all
    have b: "z_sink (addDirectoryFiles ?z' files dirPath zipPath) = None \<and>
      z_entries (addDirectoryFiles ?z' files dirPath zipPath) = z_entries ?z' @ children_entries files zipPath"
      using 5(3)[OF refl refl False a(1)] .
    show ?thesis using False a b by (simp add: Let_def)
  qed
qed

lemma healthy_loop:
  "z_sink z = None \<Longrightarrow> z_sink (snd (downloadLoop (Some c) z paths)) = None \<and>
     z_entries (snd (downloadLoop (Some c) z paths)) = z_entries z @ archive_entries c paths"
proof (induction paths arbitrary: z)
  case Nil
  then show ?case by (simp add: archive_entries_def)
next
  case (Cons p ps)
  let ?cp = "path_Clean p"
  let ?z1 = "emit (EvStat ?cp) z"
  have z1: "z_sink ?z1 = None" "z_entries ?z1 = z_entries z" using Cons.prems by (simp_all add: emit_def)
  show ?case
  proof (cases "sftp_fs c ?cp")
    case None
    then show ?thesis using Cons.IH[OF z1(1)] z1 by (simp add: Let_def archive_entries_def)
  next
    case (Some node)
    let ?z2 = "if node_IsDir node then snd (addDirectoryToZip ?z1 node ?cp (path_Base ?cp))
               else snd (addFileToZip ?z1 node ?cp (path_Base ?cp))"
    have ne: "\<not> node_IsDir node \<Longrightarrow> (case node_Open node of None \<Rightarrow> [] | Some f \<Rightarrow> [(path_Base ?cp, f_data f)]) = node_entries node (path_Base ?cp)"
      by (cases node; simp split: option.splits)
    have e: "z_sink ?z2 = None" "z_entries ?z2 = z_entries z @ node_entries node (path_Base ?cp)"
      using healthy_addDir(1)[OF z1(1), of node ?cp "path_Base ?cp"] healthy_addFile[OF z1(1), of node ?cp "path_Base ?cp"] z1(2) ne by auto
    have eq: "downloadLoop (Some c) z (p # ps) = downloadLoop (Some c) ?z2 ps"
      using Some by (simp add: Let_def)
    show ?thesis unfolding eq using Cons.IH[OF e(1)] e(2) Some by (simp add: archive_entries_def)
  qed
qed

subsection \<open>The archive after the sink has failed\<close>









subsection \<open>Failing paths, and the whole of \<open>DownloadMultiple\<close>\<close>

lemma failed_loop:
  "(\<forall>p\<in>set paths. path_fails c p) \<Longrightarrow>
     z_sink (snd (downloadLoop (Some c) z paths)) = z_sink z \<and>
     z_entries (snd (downloadLoop (Some c) z paths)) = z_entries z"
proof (induction paths arbitrary: z)
  case Nil
  then show ?case by simp
next
  case (Cons p ps)
  let ?cp = "path_Clean p"
  let ?z1 = "emit (EvStat ?cp) z"
  have z1: "z_sink ?z1 = z_sink z" "z_entries ?z1 = z_entries z" by (simp_all add: emit_def)
  have pf: "path_fails c p" and rest: "\<forall>q\<in>set ps. path_fails c q" using Cons.prems by simp_all
  show ?case
  proof (cases "sftp_fs c ?cp")
    case None
    then show ?thesis using Cons.IH[OF rest, of ?z1] z1 by (simp add: Let_def)
  next
    case (Some node)
    let ?z2 = "if node_IsDir node then snd (addDirectoryToZip ?z1 node ?cp (path_Base ?cp))
               else snd (addFileToZip ?z1 node ?cp (path_Base ?cp))"
    have e: "z_sink ?z2 = z_sink z \<and> z_entries ?z2 = z_entries z"
    proof (cases node)
      case (RegNode n a f)
      then have "f = None" using pf Some by (simp add: path_fails_def)
      then show ?thesis using RegNode z1 by (simp add: addFileToZip_def emit_def Let_def)
    next
      case (DirNode n a l)
      then have "l = None" using pf Some by (simp add: path_fails_def)
      then show ?thesis using DirNode z1 by (simp add: emit_def)
    qed
    have eq: "downloadLoop (Some c) z (p # ps) = downloadLoop (Some c) ?z2 ps"
      using Some by (simp add: Let_def)
    show ?thesis unfolding eq using Cons.IH[OF rest, of ?z2] e by simp
  qed
qed

lemma zip_NewWriter_fields:
  "z_entries (zip_NewWriter w) = []" "z_sink (zip_NewWriter w) = w"
  "z_closed (zip_NewWriter w) = False" "z_trailers (zip_NewWriter w) = 0"
  "z_trace (zip_NewWriter w) = []"
  by (simp_all add: zip_NewWriter_def)

lemma zip_Close_fields:
  "z_trace (snd (zip_Close z)) = z_trace z @ [EvZipClose]"
  "z_entries (snd (zip_Close z)) = z_entries z"
  "\<not> z_closed z \<Longrightarrow> z_closed (snd (zip_Close z))"
  "\<not> z_closed z \<Longrightarrow> z_sink z \<noteq> Some 0 \<Longrightarrow> z_trailers (snd (zip_Close z)) = z_trailers z + 1"
  "\<not> z_closed z \<Longrightarrow> z_sink z = Some 0 \<Longrightarrow> z_trailers (snd (zip_Close z)) = z_trailers z"
  by (simp_all add: zip_Close_def emit_def sink_ok_def sink_write_def Let_def)

lemma DownloadMultiple_valid:
  assumes "fst (GetSession svc sid now now') = Inr session" and "SFTPClient session = Some c"
  shows "DownloadMultiple svc now now' sid paths w =
           (None, snd (GetSession svc sid now now'),
            Some (snd (zip_Close (snd (downloadLoop (Some c) (zip_NewWriter w) paths)))))"
proof -
  obtain svc' where g: "GetSession svc sid now now' = (Inr session, svc')"
    using assms(1) by (cases "GetSession svc sid now now'") simp
  obtain z where l: "downloadLoop (Some c) (zip_NewWriter w) paths = (False, z)"
    using downloadLoop_trace[of c "zip_NewWriter w" paths]
    by (cases "downloadLoop (Some c) (zip_NewWriter w) paths") simp
  show ?thesis
    using g assms(2) l by (simp add: DownloadMultiple_def Let_def)
qed

subsection \<open>Entry names\<close>

lemma path_Base_no_slash: "path_Base p \<noteq> ''/'' \<Longrightarrow> CHR ''/'' \<notin> set (path_Base p)"
proof -
  assume a: "path_Base p \<noteq> ''/''"
  let ?p1 = "rev (dropWhile (\<lambda>c. c = CHR ''/'') (rev p))"
  let ?p2 = "rev (takeWhile (\<lambda>c. c \<noteq> CHR ''/'') (rev ?p1))"
  have n: "CHR ''/'' \<notin> set ?p2"
    using set_takeWhileD[of "CHR ''/''" "\<lambda>c. c \<noteq> CHR ''/''" "rev ?p1"] by auto
  show ?thesis
  proof (cases "p = []")
    case True
    then show ?thesis by (simp add: path_Base_def)
  next
    case False
    then have "path_Base p = (if ?p2 = [] then ''/'' else ?p2)"
      by (simp add: path_Base_def Let_def)
    then show ?thesis using a n by (simp split: if_splits)
  qed
qed

lemma node_entries_prefix:
  "e \<in> set (node_entries node zp) \<Longrightarrow> \<exists>r. fst e = zp @ r"
  "e \<in> set (children_entries files zp) \<Longrightarrow> \<exists>r. fst e = zp @ CHR ''/'' # r"
proof (induction node zp and files zp arbitrary: e and e rule: node_entries_children_entries.induct)
  case (1 n a zp)
  then show ?case by simp
next
  case (2 n a f zp)
  then show ?case by simp
next
  case (3 n a zp)
  then show ?case by simp
next
  case (4 n a files zp)
  from 4(2) have "fst e = zp @ ''/'' \<or> e \<in> set (children_entries files zp)"
    by (auto split: if_splits)
  then show ?case
  proof
    assume "fst e = zp @ ''/''"
    then show ?thesis by blast
  next
    assume "e \<in> set (children_entries files zp)"
    then obtain r where "fst e = zp @ CHR ''/'' # r" using 4(1) by blast
    then show ?thesis by blast
  qed
next
  case (5 zp)
  then show ?case by simp
next
  case (6 f fs zp)
  from 6(3) have "e \<in> set (node_entries f (zp @ ''/'' @ node_Name f)) \<or> e \<in> set (children_entries fs zp)"
    by simp
  then show ?case
  proof
    assume "e \<in> set (node_entries f (zp @ ''/'' @ node_Name f))"
    then obtain r where "fst e = (zp @ ''/'' @ node_Name f) @ r" using 6(1) by blast
    then have "fst e = zp @ CHR ''/'' # (node_Name f @ r)" by simp
    then show ?thesis by blast
  next
    assume "e \<in> set (children_entries fs zp)"
    then show ?thesis using 6(2) by blast
  qed
qed

subsection \<open>The concrete server\<close>

lemma ex_valid:
  "fst (GetSession ex_svc ''s1'' 110 111) = Inr (ex_session\<lparr>LastAccess := 111\<rparr>)"
  "SFTPClient (ex_session\<lparr>LastAccess := 111\<rparr>) = Some ex_sftp"
  by (simp_all add: ex_get ex_session_def)

lemma ex_clean:
  "path_Clean ''/home/alice/fileA.txt'' = ''/home/alice/fileA.txt''"
  "path_Clean ''/home/alice/dirB/'' = ''/home/alice/dirB''"
  "path_Clean ''/home/alice/dirC'' = ''/home/alice/dirC''"
  "path_Clean ''/home/alice/dirB/d.txt'' = ''/home/alice/dirB/d.txt''"
  "path_Clean ''/missing'' = ''/missing''"
  "path_Clean ''/'' = ''/''"
  "path_Clean ''/home/alice'' = ''/home/alice''"
  by (simp_all add: path_Clean_def Let_def)

lemma ex_base:
  "path_Base ''/home/alice/fileA.txt'' = ''fileA.txt''"
  "path_Base ''/home/alice/dirB'' = ''dirB''"
  "path_Base ''/home/alice/dirC'' = ''dirC''"
  "path_Base ''/home/alice/dirB/d.txt'' = ''d.txt''"
  "path_Base ''/'' = ''/''"
  by (simp_all add: path_Base_def Let_def)

lemma ex_join:
  "path_Join ''/home/alice/dirB'' ''c.txt'' = ''/home/alice/dirB/c.txt''"
  "path_Join ''/home/alice/dirB'' ''d.txt'' = ''/home/alice/dirB/d.txt''"
  "path_Join ''/home/alice/dirC'' ''x.txt'' = ''/home/alice/dirC/x.txt''"
  "path_Join ''/home/alice/dirC'' ''y.txt'' = ''/home/alice/dirC/y.txt''"
  "path_Join ''/'' ''motd'' = ''/motd''"
  by (simp_all add: path_Join_def path_Clean_def Let_def)

section \<open>Claims\<close>

text \<open>
  C1. The capacity check of \<open>CreateSession\<close> is made under the read lock and the
  insertion under the write lock, with no second check in between. Two callers that
  both pass the check on an empty registry with \<open>MaxSessions = 1\<close> both insert: the
  registry then holds two sessions, more than the limit.
\<close>

theorem CreateSession_interleaved_exceeds_limit:
  "MaxSessions (config (NewSessionService ex_config)) = 1 \<and>
   sessions (NewSessionService ex_config) = [] \<and>
   length (sessions (fst (run_schedule (NewSessionService ex_config)
       [AtCheck ex_reqA ex_dialA, AtCheck ex_reqB ex_dialB] [0, 1, 0, 1, 0, 1]))) = 2"
  by (simp add: NewSessionService_def ex_defs create_check_def create_connect_def
      create_store_def Validate_def Let_def)

text \<open>
  C2, as the code has it. For a stored session, \<open>GetSession\<close> returns \<open>ErrSessionExpired\<close>
  and leaves the registry unchanged exactly when the idle time is strictly greater
  than the timeout; otherwise (idle time less than or equal to the timeout) it returns
  the session with \<open>LastAccess\<close> set to the current time and stores it so.
\<close>

theorem GetSession_expiry:
  assumes "map_of (sessions svc) sid = Some s"
  shows "GetSession svc sid now now' =
           (if time_Since now (LastAccess s) > Timeout (config svc)
            then (Inl ErrSessionExpired, svc)
            else (Inr (s\<lparr>LastAccess := now'\<rparr>),
                  svc\<lparr>sessions := AList.update sid (s\<lparr>LastAccess := now'\<rparr>) (sessions svc)\<rparr>))"
  using assms by (simp add: GetSession_def IsExpired_def UpdateAccess_def Let_def)

theorem GetSession_expiry_witness:
  "map_of (sessions ex_svc) ''s1'' = Some ex_session \<and>
   time_Since 110 (LastAccess ex_session) = 10 \<and>
   time_Since 131 (LastAccess ex_session) = 31 \<and>
   Timeout (config ex_svc) = 30 \<and>
   fst (GetSession ex_svc ''s1'' 110 111) = Inr (ex_session\<lparr>LastAccess := 111\<rparr>) \<and>
   map_of (sessions (snd (GetSession ex_svc ''s1'' 110 111))) ''s1'' =
     Some (ex_session\<lparr>LastAccess := 111\<rparr>) \<and>
   GetSession ex_svc ''s1'' 131 132 = (Inl ErrSessionExpired, ex_svc)"
proof -
  have h: "map_of (sessions ex_svc) ''s1'' = Some ex_session"
    by (simp add: ex_svc_def)
  have i: "time_Since 110 (LastAccess ex_session) = 10" "time_Since 131 (LastAccess ex_session) = 31"
    by (simp_all add: time_defs ex_session_def)
  have t: "Timeout (config ex_svc) = 30"
    by (simp add: ex_svc_def ex_config_def)
  show ?thesis
    using GetSession_expiry[OF h, of 110 111] GetSession_expiry[OF h, of 131 132] h i t
    by (simp add: ex_svc_def)
qed

text \<open>The boundary: at an idle time equal to the timeout the session is not expired;
  it is returned and refreshed.\<close>

theorem GetSession_boundary_counterexample:
  "map_of (sessions ex_svc) ''s1'' = Some ex_session \<and>
   time_Since 130 (LastAccess ex_session) \<ge> Timeout (config ex_svc) \<and>
   fst (GetSession ex_svc ''s1'' 130 131) = Inr (ex_session\<lparr>LastAccess := 131\<rparr>)"
  by (simp add: GetSession_def IsExpired_def UpdateAccess_def time_defs ex_svc_def
      ex_session_def ex_config_def Let_def)

text \<open>
  C3. \<open>DeleteSession\<close> on a stored id succeeds, issues exactly the Close calls of that
  session's connections, each once, and removes the record; a second call on the same
  id returns \<open>ErrSessionNotFound\<close>, changes nothing and issues no Close call.
\<close>

theorem DeleteSession_idempotent:
  assumes "map_of (sessions svc) sid = Some s"
  shows "DeleteSession svc sid =
           (None, svc\<lparr>sessions := AList.delete sid (sessions svc)\<rparr>, session_conns s) \<and>
         map_of (sessions (svc\<lparr>sessions := AList.delete sid (sessions svc)\<rparr>)) sid = None \<and>
         DeleteSession (svc\<lparr>sessions := AList.delete sid (sessions svc)\<rparr>) sid =
           (Some ErrSessionNotFound, svc\<lparr>sessions := AList.delete sid (sessions svc)\<rparr>, [])"
  using assms Session_Close_conns[of s]
  by (auto simp add: DeleteSession_def delete_conv split: prod.splits)

theorem DeleteSession_idempotent_witness:
  "map_of (sessions ex_svc) ''s1'' = Some ex_session \<and>
   DeleteSession ex_svc ''s1'' = (None, ex_svc\<lparr>sessions := []\<rparr>, [SFTPConn 1, SSHConn 1]) \<and>
   DeleteSession (ex_svc\<lparr>sessions := []\<rparr>) ''s1'' =
     (Some ErrSessionNotFound, ex_svc\<lparr>sessions := []\<rparr>, [])"
proof -
  have h: "map_of (sessions ex_svc) ''s1'' = Some ex_session"
    by (simp add: ex_svc_def)
  have d: "AList.delete ''s1'' (sessions ex_svc) = []"
    by (simp add: ex_svc_def)
  have c: "session_conns ex_session = [SFTPConn 1, SSHConn 1]"
    by (simp add: session_conns_def ex_session_def ex_sftp_def ex_ssh_def)
  show ?thesis
    using DeleteSession_idempotent[OF h] h d c by simp
qed

text \<open>
  C4. With a valid session, \<open>DownloadMultiple\<close> closes the ZIP writer exactly once, as
  the last operation, after every requested path has been statted; the writer ends
  closed. Over a sink that does not fail the trailer is written once. When every
  requested path fails (among them: when there is none) and the sink takes one write,
  the archive has no entry and its trailer is written.
\<close>

theorem DownloadMultiple_finalizes_once:
  assumes "fst (GetSession svc sid now now') = Inr session" and "SFTPClient session = Some c"
  shows "\<exists>z. snd (snd (DownloadMultiple svc now now' sid paths w)) = Some z \<and>
             z_trace z = z_trace (snd (downloadLoop (Some c) (zip_NewWriter w) paths)) @ [EvZipClose] \<and>
             EvZipClose \<notin> set (z_trace (snd (downloadLoop (Some c) (zip_NewWriter w) paths))) \<and>
             filter is_stat (z_trace z) = map (EvStat \<circ> path_Clean) paths \<and>
             z_closed z \<and>
             (w = None \<longrightarrow> z_trailers z = 1) \<and>
             ((\<forall>p\<in>set paths. path_fails c p) \<and> w \<noteq> Some 0 \<longrightarrow>
                z_entries z = [] \<and> z_trailers z = 1)"
proof -
  let ?l = "snd (downloadLoop (Some c) (zip_NewWriter w) paths)"
  let ?z = "snd (zip_Close ?l)"
  have dm: "snd (snd (DownloadMultiple svc now now' sid paths w)) = Some ?z"
    using DownloadMultiple_valid[OF assms] by simp
  have t: "fst (downloadLoop (Some c) (zip_NewWriter w) paths) = False"
    "z_closed ?l = False" "z_trailers ?l = 0"
    "filter is_stat (z_trace ?l) = map (EvStat \<circ> path_Clean) paths"
    "EvZipClose \<notin> set (z_trace ?l)"
    using downloadLoop_trace[of c "zip_NewWriter w" paths] by (simp_all add: zip_NewWriter_fields)
  have c1: "z_trace ?z = z_trace ?l @ [EvZipClose]" by (simp add: zip_Close_fields)
  have c2: "filter is_stat (z_trace ?z) = map (EvStat \<circ> path_Clean) paths"
    using c1 t(4) by simp
  have c3: "z_closed ?z" using t(2) by (simp add: zip_Close_fields)
  have c4: "w = None \<longrightarrow> z_trailers ?z = 1"
  proof
    assume "w = None"
    then have "z_sink ?l = None" using healthy_loop[of "zip_NewWriter w" c paths] by (simp add: zip_NewWriter_fields)
    then show "z_trailers ?z = 1" using t(2,3) by (simp add: zip_Close_fields)
  qed
  have c5: "(\<forall>p\<in>set paths. path_fails c p) \<and> w \<noteq> Some 0 \<longrightarrow> z_entries ?z = [] \<and> z_trailers ?z = 1"
  proof
    assume a: "(\<forall>p\<in>set paths. path_fails c p) \<and> w \<noteq> Some 0"
    then have "z_sink ?l = w" "z_entries ?l = []"
      using failed_loop[of paths c "zip_NewWriter w"] by (simp_all add: zip_NewWriter_fields)
    then show "z_entries ?z = [] \<and> z_trailers ?z = 1" using a t(2,3) by (simp add: zip_Close_fields)
  qed
  show ?thesis using dm c1 c2 c3 c4 c5 t(5) by blast
qed

theorem DownloadMultiple_finalizes_once_witness:
  "fst (GetSession ex_svc ''s1'' 110 111) = Inr (ex_session\<lparr>LastAccess := 111\<rparr>) \<and>
   SFTPClient (ex_session\<lparr>LastAccess := 111\<rparr>) = Some ex_sftp \<and>
   path_fails ex_sftp ''/missing'' \<and> path_fails ex_sftp ''/home/alice/dirB/d.txt'' \<and>
   (\<exists>z. snd (snd (DownloadMultiple ex_svc 110 111 ''s1'' [] None)) = Some z \<and>
        z_trace z = [EvZipClose] \<and> z_entries z = [] \<and> z_trailers z = 1 \<and> z_closed z) \<and>
   (\<exists>z. snd (snd (DownloadMultiple ex_svc 110 111 ''s1''
                    [''/missing'', ''/home/alice/dirB/d.txt''] None)) = Some z \<and>
        z_trace z = [EvStat ''/missing'', EvStat ''/home/alice/dirB/d.txt'',
                     EvOpen ''/home/alice/dirB/d.txt'', EvZipClose] \<and>
        z_entries z = [] \<and> z_trailers z = 1 \<and> z_closed z)"
proof -
  have f: "\<forall>p\<in>set [''/missing'', ''/home/alice/dirB/d.txt'']. path_fails ex_sftp p"
    by (simp add: path_fails_def ex_clean ex_sftp_def ex_fs_def)
  have f0: "\<forall>p\<in>set ([] :: string list). path_fails ex_sftp p" by simp
  have l0: "z_trace (snd (downloadLoop (Some ex_sftp) (zip_NewWriter None) [])) = []"
    by (simp add: zip_NewWriter_def)
  have l1: "z_trace (snd (downloadLoop (Some ex_sftp) (zip_NewWriter None)
                [''/missing'', ''/home/alice/dirB/d.txt''])) =
            [EvStat ''/missing'', EvStat ''/home/alice/dirB/d.txt'', EvOpen ''/home/alice/dirB/d.txt'']"
    by (simp add: zip_NewWriter_def ex_clean ex_base ex_sftp_def ex_fs_def emit_def
        addFileToZip_def Let_def)
  show ?thesis
    using DownloadMultiple_finalizes_once[OF ex_valid, of "[]" None]
      DownloadMultiple_finalizes_once[OF ex_valid, of "[''/missing'', ''/home/alice/dirB/d.txt'']" None]
      f f0 l0 l1 ex_valid
    by auto
qed





text \<open>
  C7. \<open>CreateSession\<close> takes the working directory the connection reports and
  otherwise falls back to the root at once; it probes no home-directory path. On a
  connection whose working directory is not available and whose \<open>/home/alice\<close> exists,
  the session's home directory is the root, where the home-directory detection of
  \<open>connectHandler\<close> finds \<open>/home/alice\<close>.
\<close>

theorem CreateSession_home_without_probe:
  "map_sum id HomeDir
     (fst (CreateSession (NewSessionService ex_config) ex_reqA ex_dial_nowd)) = Inr ''/'' \<and>
   sftp_Getwd ex_sftp_nowd = None \<and>
   sftp_fs ex_sftp_nowd ''/home/alice'' \<noteq> None \<and>
   connectHandler_homeDir ex_sftp_nowd (req_Username ex_reqA) = ''/home/alice''"
  by (simp add: NewSessionService_def ex_defs CreateSession_def create_check_def
      create_connect_def create_store_def Validate_def Let_def connectHandler_homeDir_def)

text \<open>
  C8. For the requested path \<open>/\<close> the base name is \<open>/\<close> itself, so the directory
  entry is named \<open>//\<close> and the entry of the file \<open>/motd\<close> is named \<open>//motd\<close>: the name
  begins with a slash and contains the remote absolute path of the file.
\<close>

theorem DownloadMultiple_root_entry_names:
  "map_option (map fst \<circ> z_entries)
     (snd (snd (DownloadMultiple ex_svc 110 111 ''s1'' [''/''] None))) = Some [''//'', ''//motd''] \<and>
   map_option z_trace
     (snd (snd (DownloadMultiple ex_svc 110 111 ''s1'' [''/''] None))) =
     Some [EvStat ''/'', EvReadDir ''/'', EvCreate ''//'', EvOpen ''/motd'', EvCreate ''//motd'',
           EvCopy ''//motd'', EvClose ''/motd'', EvZipClose] \<and>
   strings_HasPrefix ''//motd'' ''/'' \<and>
   strings_Contains ''//motd'' ''/motd''"
  by (simp add: DownloadMultiple_def ex_get ex_session_def ex_clean ex_base ex_join ex_sftp_def
      ex_fs_def ex_file_def zip_NewWriter_def zip_Create_def zip_Close_def io_Copy_def emit_def
      sink_ok_def sink_write_def addFileToZip_def Let_def)




text \<open>
  C10. With a valid session, \<open>ListFiles\<close> on the empty path is \<open>ListFiles\<close> on the
  session's home directory, and the one remote call it makes is the listing of the
  cleaned home directory.
\<close>

theorem ListFiles_empty_path_is_home:
  assumes "fst (GetSession svc sid now now') = Inr session"
  shows "ListFiles svc now now' sid [] showHidden flt =
           ListFiles svc now now' sid (HomeDir session) showHidden flt \<and>
         (SFTPClient session \<noteq> None \<longrightarrow>
            snd (snd (ListFiles svc now now' sid [] showHidden flt)) =
              [EvReadDir (path_Clean (HomeDir session))])"
proof -
  obtain svc' where g: "GetSession svc sid now now' = (Inr session, svc')"
    using assms(1) by (cases "GetSession svc sid now now'") simp
  show ?thesis
    using g by (auto simp: ListFiles_def Let_def split: option.splits)
qed

theorem ListFiles_empty_path_is_home_witness:
  "fst (GetSession ex_svc ''s1'' 110 111) = Inr (ex_session\<lparr>LastAccess := 111\<rparr>) \<and>
   SFTPClient (ex_session\<lparr>LastAccess := 111\<rparr>) \<noteq> None \<and>
   HomeDir (ex_session\<lparr>LastAccess := 111\<rparr>) = ''/home/alice'' \<and>
   snd (snd (ListFiles ex_svc 110 111 ''s1'' [] False [])) = [EvReadDir ''/home/alice''] \<and>
   map_sum id (map Path) (fst (ListFiles ex_svc 110 111 ''s1'' [] False [])) =
     Inr [''/home/alice/dirB'', ''/home/alice/fileA.txt''] \<and>
   ListFiles ex_svc 110 111 ''s1'' [] False [] = ListFiles ex_svc 110 111 ''s1'' ''/home/alice'' False []"
proof -
  have h: "HomeDir (ex_session\<lparr>LastAccess := 111\<rparr>) = ''/home/alice''"
    "SFTPClient (ex_session\<lparr>LastAccess := 111\<rparr>) \<noteq> None"
    by (simp_all add: ex_session_def)
  have j: "path_Join ''/home/alice'' ''fileA.txt'' = ''/home/alice/fileA.txt''"
    "path_Join ''/home/alice'' ''dirB'' = ''/home/alice/dirB''"
    by (simp_all add: path_Join_def path_Clean_def Let_def)
  have l: "map_sum id (map Path) (fst (ListFiles ex_svc 110 111 ''s1'' ''/home/alice'' False [])) =
     Inr [''/home/alice/dirB'', ''/home/alice/fileA.txt'']"
    by (simp add: ListFiles_def ex_get ex_session_def ex_clean ex_sftp_def ex_fs_def ex_file_def
        ex_dirB_def sftp_ReadDir_def sort_files_def files_less_def strings_ToLower_def
        lower_char_def j Let_def)
  note t = ListFiles_empty_path_is_home[OF ex_valid(1), of False "[]", unfolded h(1) ex_clean(7)]
  from t have e1: "ListFiles ex_svc 110 111 ''s1'' [] False [] =
             ListFiles ex_svc 110 111 ''s1'' ''/home/alice'' False []"
    by (rule conjunct1)
  from t h(2) have e2:
    "snd (snd (ListFiles ex_svc 110 111 ''s1'' [] False [])) = [EvReadDir ''/home/alice'']"
    by blast
  have l': "map_sum id (map Path) (fst (ListFiles ex_svc 110 111 ''s1'' [] False [])) =
     Inr [''/home/alice/dirB'', ''/home/alice/fileA.txt'']"
    unfolding e1 by (rule l)
  show ?thesis
    using e1 e2 l' h ex_valid(1) by blast
qed

end
